theory Spec2Isabelle
  imports Main
begin

section \<open>Text: code points and the Unicode properties the classifier reads\<close>

text \<open>
  A Python \<open>str\<close> is a sequence of Unicode code points.  \<open>main\<close> reads the statement
  with \<open>encoding="latin1"\<close>, so every description consists of code points below 256.
  The property tables below are written out for exactly that range and for the code points
  NFKD produces from it (the combining marks 768 .. 807, \<open>956\<close> and \<open>8260\<close>).
\<close>

type_synonym cp = nat
type_synonym ustr = "cp list"

definition ustr :: "string \<Rightarrow> ustr" where
  "ustr s = map of_char s"

text \<open>\<open>str.isspace\<close> on one code point; the regex class \<open>\\s\<close> is the same set.\<close>

definition is_space :: "cp \<Rightarrow> bool" where
  "is_space c \<longleftrightarrow>
     (9 \<le> c \<and> c \<le> 13) \<or> (28 \<le> c \<and> c \<le> 32) \<or> c = 133 \<or> c = 160 \<or> c = 5760 \<or>
     (8192 \<le> c \<and> c \<le> 8202) \<or> c = 8232 \<or> c = 8233 \<or> c = 8239 \<or> c = 8287 \<or> c = 12288"

text \<open>The regex class \<open>\\d\<close> (decimal digits).\<close>

definition is_digit :: "cp \<Rightarrow> bool" where
  "is_digit c \<longleftrightarrow> 48 \<le> c \<and> c \<le> 57"

text \<open>The regex class \<open>\\w\<close>: \<open>str.isalnum\<close> or the underscore.\<close>

definition is_word :: "cp \<Rightarrow> bool" where
  "is_word c \<longleftrightarrow>
     (48 \<le> c \<and> c \<le> 57) \<or> (65 \<le> c \<and> c \<le> 90) \<or> c = 95 \<or> (97 \<le> c \<and> c \<le> 122) \<or>
     c = 170 \<or> c = 178 \<or> c = 179 \<or> c = 181 \<or> c = 185 \<or> c = 186 \<or>
     (188 \<le> c \<and> c \<le> 190) \<or> (192 \<le> c \<and> c \<le> 214) \<or> (216 \<le> c \<and> c \<le> 246) \<or>
     (248 \<le> c \<and> c \<le> 255) \<or> c = 956"

text \<open>Lower-case mapping of one code point (\<open>str.lower\<close>, and the case folding of
  \<open>re.IGNORECASE\<close>).\<close>

definition lower_cp :: "cp \<Rightarrow> cp" where
  "lower_cp c =
     (if (65 \<le> c \<and> c \<le> 90) \<or> (192 \<le> c \<and> c \<le> 214) \<or> (216 \<le> c \<and> c \<le> 222)
      then c + 32 else c)"

definition py_lower :: "ustr \<Rightarrow> ustr" where
  "py_lower s = map lower_cp s"

text \<open>\<open>unicodedata.combining\<close>: the canonical combining class.\<close>

definition combining :: "cp \<Rightarrow> nat" where
  "combining c =
     (if c = 807 then 202
      else if (768 \<le> c \<and> c \<le> 772) \<or> c = 776 \<or> c = 778 then 230 else 0)"

text \<open>The full compatibility decomposition of one code point.\<close>

definition decomp :: "cp \<Rightarrow> ustr" where
  "decomp c =
     (if c < 160 then [c]
      else if c = 160 then [32]
      else if c = 168 then [32, 776]
      else if c = 170 then [97]
      else if c = 175 then [32, 772]
      else if c = 178 then [50]
      else if c = 179 then [51]
      else if c = 180 then [32, 769]
      else if c = 181 then [956]
      else if c = 184 then [32, 807]
      else if c = 185 then [49]
      else if c = 186 then [111]
      else if c = 188 then [49, 8260, 52]
      else if c = 189 then [49, 8260, 50]
      else if c = 190 then [51, 8260, 52]
      else if 192 \<le> c \<and> c \<le> 197 then [65, [768, 769, 770, 771, 776, 778] ! (c - 192)]
      else if c = 199 then [67, 807]
      else if 200 \<le> c \<and> c \<le> 203 then [69, [768, 769, 770, 776] ! (c - 200)]
      else if 204 \<le> c \<and> c \<le> 207 then [73, [768, 769, 770, 776] ! (c - 204)]
      else if c = 209 then [78, 771]
      else if 210 \<le> c \<and> c \<le> 214 then [79, [768, 769, 770, 771, 776] ! (c - 210)]
      else if 217 \<le> c \<and> c \<le> 220 then [85, [768, 769, 770, 776] ! (c - 217)]
      else if c = 221 then [89, 769]
      else if 224 \<le> c \<and> c \<le> 229 then [97, [768, 769, 770, 771, 776, 778] ! (c - 224)]
      else if c = 231 then [99, 807]
      else if 232 \<le> c \<and> c \<le> 235 then [101, [768, 769, 770, 776] ! (c - 232)]
      else if 236 \<le> c \<and> c \<le> 239 then [105, [768, 769, 770, 776] ! (c - 236)]
      else if c = 241 then [110, 771]
      else if 242 \<le> c \<and> c \<le> 246 then [111, [768, 769, 770, 771, 776] ! (c - 242)]
      else if 249 \<le> c \<and> c \<le> 252 then [117, [768, 769, 770, 776] ! (c - 249)]
      else if c = 253 then [121, 769]
      else if c = 255 then [121, 776]
      else [c])"

text \<open>\<open>unicodedata.normalize("NFKD", s)\<close>.  No code point below 256 is a combining
  mark and every decomposition above is a starter followed by at most one mark, so no
  canonical reordering takes place and the result is the concatenation.\<close>

definition nfkd :: "ustr \<Rightarrow> ustr" where
  "nfkd s = concat (map decomp s)"

text \<open>\<open>str.strip()\<close>.\<close>

definition py_strip :: "ustr \<Rightarrow> ustr" where
  "py_strip s = rev (dropWhile is_space (rev (dropWhile is_space s)))"

text \<open>\<open>s.startswith(p)\<close>.\<close>

fun py_startswith :: "ustr \<Rightarrow> ustr \<Rightarrow> bool" where
  "py_startswith s [] = True"
| "py_startswith [] (p # ps) = False"
| "py_startswith (x # xs) (p # ps) = (x = p \<and> py_startswith xs ps)"

text \<open>\<open>p in s\<close> for strings.\<close>

fun py_in :: "ustr \<Rightarrow> ustr \<Rightarrow> bool" where
  "py_in p [] = (p = [])"
| "py_in p (x # xs) = (py_startswith (x # xs) p \<or> py_in p xs)"

text \<open>\<open>s.replace(old, new)\<close> for a non-empty \<open>old\<close>: every occurrence, left to right,
  not overlapping.  The counter holds how many code points of a replaced occurrence are
  still to be dropped.\<close>

fun replace_go :: "ustr \<Rightarrow> ustr \<Rightarrow> nat \<Rightarrow> ustr \<Rightarrow> ustr" where
  "replace_go old new skip [] = []"
| "replace_go old new (Suc k) (x # xs) = replace_go old new k xs"
| "replace_go old new 0 (x # xs) =
     (if py_startswith (x # xs) old
      then new @ replace_go old new (length old - 1) xs
      else x # replace_go old new 0 xs)"

definition py_replace :: "ustr \<Rightarrow> ustr \<Rightarrow> ustr \<Rightarrow> ustr" where
  "py_replace s old new = replace_go old new 0 s"

section \<open>The regular expressions of the rule table\<close>

text \<open>
  The patterns are compiled with \<open>re.IGNORECASE | re.UNICODE\<close>.  The syntax tree covers
  the constructs the rule table and the helper substitutions use: character sets, the dot,
  \<open>^\<close>, \<open>\\b\<close>, concatenation, greedy and lazy bounded repetition, and capturing groups
  (a non-capturing group is just its body).
\<close>

datatype item = Ch cp | Digit | Space

datatype re =
    Eps
  | In "item list"
  | Any bool
  | Bol
  | Wb
  | Seq re re
  | Rep nat "nat option" bool re
  | Grp nat re

text \<open>\<open>pattern.groups\<close>: the number of capturing groups.\<close>

primrec groups :: "re \<Rightarrow> nat" where
  "groups Eps = 0"
| "groups (In cs) = 0"
| "groups (Any d) = 0"
| "groups Bol = 0"
| "groups Wb = 0"
| "groups (Seq a b) = groups a + groups b"
| "groups (Rep lo hi g r) = groups r"
| "groups (Grp n r) = Suc (groups r)"

fun item_match :: "item \<Rightarrow> cp \<Rightarrow> bool" where
  "item_match (Ch c) x = (lower_cp x = lower_cp c)"
| "item_match Digit x = is_digit x"
| "item_match Space x = is_space x"

text \<open>The matcher state: the code point before the position (for \<open>^\<close> and \<open>\\b\<close>),
  the text from the position on, and the groups captured so far (latest first).\<close>

datatype mstate = MState (prev: "cp option") (rest: ustr) (caps: "(nat \<times> ustr) list")

definition word_at :: "cp option \<Rightarrow> bool" where
  "word_at c = (case c of None \<Rightarrow> False | Some x \<Rightarrow> is_word x)"

definition next_cp :: "ustr \<Rightarrow> cp option" where
  "next_cp s = (case s of [] \<Rightarrow> None | x # xs \<Rightarrow> Some x)"

definition first_of :: "'a option \<Rightarrow> 'a option \<Rightarrow> 'a option" where
  "first_of a b = (case a of Some r \<Rightarrow> Some r | None \<Rightarrow> b)"

text \<open>The optional iterations of a repetition, in the backtracking order of the engine:
  a greedy loop tries one more iteration before it tries to go on, a lazy loop the other
  way round.  An iteration has to consume text, so the remaining length bounds the loop.\<close>

primrec rep_opt ::
  "(mstate \<Rightarrow> (mstate \<Rightarrow> 'a option) \<Rightarrow> 'a option) \<Rightarrow> nat \<Rightarrow> nat option \<Rightarrow> bool \<Rightarrow>
     mstate \<Rightarrow> (mstate \<Rightarrow> 'a option) \<Rightarrow> 'a option" where
  "rep_opt f 0 hi g st k = k st"
| "rep_opt f (Suc n) hi g st k =
     (if hi = Some 0 then k st
      else if g then
        (case f st (\<lambda>st'. if length (rest st') < length (rest st)
                            then rep_opt f n (map_option (\<lambda>h. h - 1) hi) g st' k else None) of
           Some r \<Rightarrow> Some r
         | None \<Rightarrow> k st)
      else
        (case k st of
           Some r \<Rightarrow> Some r
         | None \<Rightarrow> f st (\<lambda>st'. if length (rest st') < length (rest st)
                                 then rep_opt f n (map_option (\<lambda>h. h - 1) hi) g st' k else None)))"

text \<open>The mandatory iterations of a repetition.\<close>

fun rep_min ::
  "(mstate \<Rightarrow> (mstate \<Rightarrow> 'a option) \<Rightarrow> 'a option) \<Rightarrow> nat \<Rightarrow>
     mstate \<Rightarrow> (mstate \<Rightarrow> 'a option) \<Rightarrow> 'a option" where
  "rep_min f lo st k = (if lo = 0 then k st else f st (\<lambda>st'. rep_min f (lo - 1) st' k))"

declare rep_min.simps [simp del]

text \<open>Backtracking matching in continuation-passing style: \<open>m r st k\<close> is the first
  success of \<open>k\<close> over the ways \<open>r\<close> matches at \<open>st\<close>, in the engine's priority order.\<close>

primrec m :: "re \<Rightarrow> mstate \<Rightarrow> (mstate \<Rightarrow> 'a option) \<Rightarrow> 'a option" where
  "m Eps st k = k st"
| "m (In cs) st k =
     (case rest st of
        [] \<Rightarrow> None
      | x # xs \<Rightarrow> if list_ex (\<lambda>i. item_match i x) cs then k (MState (Some x) xs (caps st)) else None)"
| "m (Any dotall) st k =
     (case rest st of
        [] \<Rightarrow> None
      | x # xs \<Rightarrow> if dotall \<or> x \<noteq> 10 then k (MState (Some x) xs (caps st)) else None)"
| "m Bol st k = (if prev st = None then k st else None)"
| "m Wb st k = (if word_at (prev st) \<noteq> word_at (next_cp (rest st)) then k st else None)"
| "m (Seq a b) st k = m a st (\<lambda>st'. m b st' k)"
| "m (Rep lo hi g r) st k =
     rep_min (m r) lo st
       (\<lambda>st'. rep_opt (m r) (length (rest st')) (map_option (\<lambda>h. h - lo) hi) g st' k)"
| "m (Grp n r) st k =
     m r st (\<lambda>st'. k (MState (prev st') (rest st')
                        ((n, take (length (rest st) - length (rest st')) (rest st)) # caps st')))"

text \<open>\<open>pattern.search\<close>: the first position, from the left, where the pattern matches.
  The result is the number of code points before the match and the state after it.\<close>

fun search_from :: "re \<Rightarrow> cp option \<Rightarrow> ustr \<Rightarrow> (nat \<times> mstate) option" where
  "search_from r p [] = map_option (Pair 0) (m r (MState p [] []) Some)"
| "search_from r p (x # xs) =
     (case m r (MState p (x # xs) []) Some of
        Some st \<Rightarrow> Some (0, st)
      | None \<Rightarrow> map_option (\<lambda>(n, st). (Suc n, st)) (search_from r (Some x) xs))"

definition re_search :: "re \<Rightarrow> ustr \<Rightarrow> (nat \<times> mstate) option" where
  "re_search r s = search_from r None s"

text \<open>\<open>Series.str.contains(pattern)\<close> on one value.\<close>

definition str_contains :: "re \<Rightarrow> ustr \<Rightarrow> bool" where
  "str_contains r s = (re_search r s \<noteq> None)"

text \<open>\<open>Series.str.extract(pattern, expand=True)\<close> on one value: one cell per group,
  all of them missing when the pattern is not found.\<close>

definition str_extract :: "re \<Rightarrow> ustr \<Rightarrow> ustr option list" where
  "str_extract r s =
     (case re_search r s of
        None \<Rightarrow> replicate (groups r) None
      | Some (n, st) \<Rightarrow> map (\<lambda>i. map_of (caps st) i) [1 ..< Suc (groups r)])"

text \<open>\<open>re.sub(pattern, repl, s)\<close> for a literal replacement: the matches are replaced from
  the left.  The counter \<open>skip\<close> holds how many code points of the current match remain.\<close>

fun sub_go :: "re \<Rightarrow> ustr \<Rightarrow> cp option \<Rightarrow> nat \<Rightarrow> ustr \<Rightarrow> ustr" where
  "sub_go r repl p skip [] =
     (if skip = 0 \<and> m r (MState p [] []) Some \<noteq> None then repl else [])"
| "sub_go r repl p (Suc k) (x # xs) = sub_go r repl (Some x) k xs"
| "sub_go r repl p 0 (x # xs) =
     (case m r (MState p (x # xs) []) Some of
        None \<Rightarrow> x # sub_go r repl (Some x) 0 xs
      | Some st \<Rightarrow>
          (if length (rest st) < length (x # xs)
           then repl @ sub_go r repl (Some x) (length xs - length (rest st)) xs
           else repl @ x # sub_go r repl (Some x) 0 xs))"

definition re_sub :: "re \<Rightarrow> ustr \<Rightarrow> ustr \<Rightarrow> ustr" where
  "re_sub r repl s = sub_go r repl None 0 s"

section \<open>The rule table\<close>

text \<open>Shorthands for writing the patterns down as they are spelt in the source.\<close>

definition cat :: "re list \<Rightarrow> re" where
  "cat rs = foldr Seq rs Eps"

definition lit :: "string \<Rightarrow> re" where
  "lit s = cat (map (\<lambda>c. In [Ch (of_char c)]) s)"

abbreviation d :: re where "d \<equiv> In [Digit]"
abbreviation sp :: re where "sp \<equiv> In [Space]"
abbreviation star :: "re \<Rightarrow> re" where "star r \<equiv> Rep 0 None True r"
abbreviation plus :: "re \<Rightarrow> re" where "plus r \<equiv> Rep 1 None True r"
abbreviation opt :: "re \<Rightarrow> re" where "opt r \<equiv> Rep 0 (Some 1) True r"
abbreviation times :: "nat \<Rightarrow> re \<Rightarrow> re" where "times n r \<equiv> Rep n (Some n) True r"
abbreviation lazy_star :: "re \<Rightarrow> re" where "lazy_star r \<equiv> Rep 0 None False r"
abbreviation lazy_plus :: "re \<Rightarrow> re" where "lazy_plus r \<equiv> Rep 1 None False r"

text \<open>\<open>[o\<acute>o]\<close>, \<open>[:\\s]\<close> and \<open>[\\d,]\<close>.\<close>

abbreviation o_acc :: re where "o_acc \<equiv> In [Ch 111, Ch 243]"
abbreviation colon_sp :: re where "colon_sp \<equiv> In [Ch 58, Space]"
abbreviation dig_comma :: re where "dig_comma \<equiv> In [Digit, Ch 44]"

text \<open>\<open>por\\s*\\(?[\\d,]+\\.\\d{2}\\)?\\s*mxn\<close>, the amount shared by five patterns.\<close>

definition por_amount_mxn :: "re list" where
  "por_amount_mxn =
     [lit ''por'', star sp, opt (lit ''(''), plus dig_comma, lit ''.'', times 2 d,
      opt (lit '')''), star sp, lit ''mxn'']"

text \<open>A rule of \<open>raw_rules\<close>: pattern, label and debug tag.\<close>

type_synonym rule = "re \<times> ustr \<times> ustr"

definition raw_rules :: "rule list" where
  "raw_rules =
   [ (cat [lit ''('', Rep 1 (Some 3) True d, star (cat [lit '','', times 3 d]), lit ''.'',
           times 2 d, lit '')'', star sp, lit ''mxn'', star sp, lit ''Nro'', opt (lit ''.''),
           star sp, lit ''Ref/Docto'', opt (lit ''.''), star sp, lit ''#'', star sp, times 7 d],
      ustr ''RAW_MATCH'', ustr ''RAW_PATTERN_AMOUNT_REF_7''),
     (cat [lit ''TRASPASO'', plus sp, lit ''DE'', plus sp, lit ''SALDOS'', sp],
      ustr ''TRASPASO DE SALDOS'', ustr ''TRASPASO DE SALDOS''),
     (cat [sp, lit ''cuota'', plus sp, lit ''obrero'', plus sp, lit ''patronal'', sp],
      ustr ''CUOTA OBRERO PATRONAL'', ustr ''CUOTA OBRERO PATRONAL''),
     (cat [lit ''mxn'', plus sp, lit ''numero'', plus sp, lit ''de'', plus sp, lit ''cheque'',
           star (Any False), lit ''|'', star sp, Grp 1 (times 4 d), star sp, lit ''|''],
      ustr ''CHEQUE ****'', ustr ''mxn numero de cheque con d'' @ [237] @ ustr ''gitos''),
     (cat [lit ''spei'', plus sp, lit ''enviado'', star colon_sp, lit ''|'',
           lazy_star (Any True), lit ''beneficiario:'', star sp, Grp 1 (lazy_star (Any True)),
           star sp, lit ''(dato'', plus sp, lit ''no'', plus sp, lit ''verificado''],
      ustr ''SPEI Enviado'', ustr ''SPEI Enviado con Beneficiario''),
     (cat [lit ''spei'', plus sp, lit ''recibido'', star colon_sp, lit ''|'',
           lazy_star (Any True), lit ''ordenante:'', star sp, Grp 1 (lazy_star (Any True)),
           star sp, lit ''cuenta'', plus sp, lit ''ordenante''],
      ustr ''SPEI Recibido'', ustr ''SPEI Recibido con Ordenante''),
     (cat [lit ''devoluci'', o_acc, lit ''n'', plus sp, lit ''de'', plus sp, lit ''spei'',
           star colon_sp, lit ''|'', lazy_star (Any True), lit ''ordenante:'', star sp,
           Grp 1 (lazy_plus (Any True)), star sp, lit ''cuenta'', plus sp, lit ''ordenante''],
      ustr ''Devoluci'' @ [243] @ ustr ''n de SPEI'', ustr ''Devoluci'' @ [243] @ ustr ''n de SPEI con Ordenante''),
     (cat [lit ''retiro'', plus sp, lit ''de'', plus sp, lit ''recursos'', lazy_star (Any True),
           lit ''beneficiario'', star sp, opt (cat [lit ''|'', star sp]),
           Grp 1 (lazy_star (Any True)), star sp, lit ''|'', star sp, lit ''hora:''],
      ustr ''Retiro de Recursos'', ustr ''Retiro de Recursos con Beneficiario''),
     (cat [lit ''entrega'', plus sp, lit ''de'', plus sp, lit ''recursos'', plus sp, lit ''por'',
           lazy_star (Any True), lit ''ordenante'', star sp, opt (lit ''|''), star sp,
           Grp 1 (lazy_plus (Any True)), star sp, lit ''|'', star sp, lit ''hora:''],
      ustr ''Entrega de Recursos'', ustr ''Entrega de Recursos con Ordenante''),
     (cat ([Bol, star sp, lit ''comision'', star sp, lit ''|'', star sp, lit ''dispersion'',
            plus sp, lit ''grupo'', Wb, star (Any False)] @ por_amount_mxn @
           [star (Any False), lit ''recibo'', star sp, lit ''#'', star sp, plus d]),
      ustr ''Comisi'' @ [243] @ ustr ''n'', ustr ''Comisi'' @ [243] @ ustr ''n | Dispersion Grupo con monto y Recibo''),
     (cat [Bol, star sp, lit ''comision'', star sp, lit ''|'', star sp, lit ''numero'', plus sp,
           lit ''de'', plus sp, lit ''referencia'', Wb, star (Any False)],
      ustr ''Comisi'' @ [243] @ ustr ''n'', ustr ''Comisi'' @ [243] @ ustr ''n | N'' @ [250] @ ustr ''mero de Referencia (exacto)''),
     (cat [Bol, star sp, lit ''comisi'', o_acc, lit ''n'', plus sp, lit ''por'', Wb],
      ustr ''Comisi'' @ [243] @ ustr ''n'', ustr ''^Comisi'' @ [243] @ ustr ''n por''),
     (cat [lit ''dep'', o_acc, lit ''sito'', plus sp, lit ''en'', plus sp, lit ''efectivo'', Wb],
      ustr ''Dep'' @ [243] @ ustr ''sito en Efectivo'', ustr ''Dep'' @ [243] @ ustr ''sito en Efectivo''),
     (cat [lit ''dep'', o_acc, lit ''sito'', plus sp, lit ''negocios'', plus sp,
           lit ''afiliados'', Wb],
      ustr ''Dep'' @ [243] @ ustr ''sito Negocios Afiliados'', ustr ''Dep'' @ [243] @ ustr ''sito Negocios Afiliados''),
     (cat [lit ''dep'', o_acc, lit ''sito'', plus sp, lit ''sbc'', plus sp, lit ''de'', plus sp,
           lit ''cobro'', plus sp, lit ''inmediato'', Wb],
      ustr ''Dep'' @ [243] @ ustr ''sito SBC de Cobro Inmediato'',
      ustr ''Dep'' @ [243] @ ustr ''sito SBC de Cobro Inmediato''),
     (cat ([Bol, star sp, lit ''deposito'', plus sp, lit ''para'', plus sp, lit ''eliminacion'',
            plus sp, lit ''de'', plus sp, lit ''sobregiro'', plus sp] @ por_amount_mxn @
           [Wb, star (Any False)]),
      ustr ''Dep'' @ [243] @ ustr ''sito para Eliminaci'' @ [243] @ ustr ''n de Sobregiro'',
      ustr ''Dep'' @ [243] @ ustr ''sito para Eliminaci'' @ [243] @ ustr ''n de Sobregiro con monto''),
     (cat [Bol, star sp, Grp 1 (lit ''spei enviado''), opt colon_sp, star (Any False)],
      ustr ''SPEI Enviado'', ustr ''SPEI Enviado''),
     (cat [Bol, star sp, Grp 1 (lit ''spei recibido''), opt colon_sp, star (Any False)],
      ustr ''SPEI Recibido'', ustr ''SPEI Recibido''),
     (cat [Bol, star sp, lit ''devoluci'', o_acc, lit ''n'', plus sp, lit ''de'', plus sp,
           lit ''spei'', opt colon_sp, star (Any False)],
      ustr ''Devoluci'' @ [243] @ ustr ''n de SPEI'', ustr ''Devoluci'' @ [243] @ ustr ''n de SPEI''),
     (cat [Bol, star sp, lit ''entrega'', plus sp, lit ''de'', plus sp, lit ''recursos'', plus sp,
           lit ''por''],
      ustr ''Entrega de Recursos'', ustr ''Entrega de Recursos''),
     (cat [Bol, star sp, lit ''retiro'', plus sp, lit ''de'', plus sp, lit ''recursos'', plus sp,
           lit ''por''],
      ustr ''Retiro de Recursos'', ustr ''Retiro de Recursos''),
     (cat [Bol, star sp, lit ''iva'', plus sp, lit ''comision'', plus sp, lit ''por'', plus sp,
           lit ''administracion'', star sp, star (Any False)],
      ustr ''IVA'', ustr ''IVA''),
     (cat [Bol, star sp, lit ''iva'', plus sp, lit ''comision'', plus sp, lit ''por'', plus sp,
           lit ''penalizacion'', star sp, star (Any False)],
      ustr ''IVA'', ustr ''IVA''),
     (cat [Bol, star sp, lit ''iva'', plus sp, lit ''comision'', plus sp, lit ''por'', plus sp,
           lit ''transferencia'', star sp, star (Any False)],
      ustr ''IVA'', ustr ''IVA''),
     (cat [Bol, star sp, lit ''iva'', plus sp, lit ''comision'', Wb, star (Any False),
           lit ''numero'', plus sp, lit ''de'', plus sp, lit ''autorizacion'', Wb,
           star (Any False)],
      ustr ''IVA'', ustr ''IVA''),
     (cat [lit ''telefono'', opt (lit ''-''), lit ''telmex''],
      ustr ''Pago de Servicios TELMEX EN LINEA'', ustr ''Pago de Servicios TELMEX EN LINEA''),
     (cat [lit ''n'', o_acc, lit ''mina'', Wb],
      ustr ''N'' @ [243] @ ustr ''mina'', ustr ''N'' @ [243] @ ustr ''mina''),
     (cat (por_amount_mxn @
           [star sp, lit ''|'', star sp, lit ''recibo'', star sp, lit ''#'', star sp, plus d, Wb]),
      ustr ''por *'', ustr ''por (monto) mxn | Recibo # (caso general estricto)''),
     (cat (por_amount_mxn @ [star sp, lit ''cargo'']),
      ustr ''__RAW__por_mxn_cargo'', ustr ''por (xx) mxn Cargo'') ]"

text \<open>\<open>compiled_rules\<close> keeps the order and the three components of \<open>raw_rules\<close>;
  compiling turns a pattern text into the matcher above.\<close>

definition compiled_rules :: "rule list" where
  "compiled_rules = raw_rules"

section \<open>The text normalizer\<close>

text \<open>\<open>normalize_text\<close>: \<open>None\<close> gives the empty string; otherwise NFKD, dropping the
  combining marks, colons to spaces, \<open>re.sub(r"\\s+", " ", s).strip().lower()\<close>.\<close>

definition normalize_text :: "ustr option \<Rightarrow> ustr" where
  "normalize_text s0 =
     (case s0 of
        None \<Rightarrow> []
      | Some s \<Rightarrow>
          py_lower (py_strip (re_sub (plus sp) (ustr '' '')
            (py_replace (filter (\<lambda>ch. combining ch = 0) (nfkd s)) (ustr '':'') (ustr '' '')))))"

section \<open>The classifier\<close>

text \<open>A value of the description column: missing (\<open>NaN\<close>/\<open>None\<close>), a string, or a value of
  another type, carried with the text \<open>str()\<close> renders it as.\<close>

datatype cell = Missing | Str ustr | Obj ustr

text \<open>\<open>df[text_col].fillna("").astype(str)\<close> on one value.\<close>

fun fillna_astype_str :: "cell \<Rightarrow> ustr" where
  "fillna_astype_str Missing = []"
| "fillna_astype_str (Str s) = s"
| "fillna_astype_str (Obj repr) = repr"

text \<open>A row of the data frame: the description, the label (\<open>None\<close> is pandas' missing
  value) and the two working columns.  The classifier overwrites the last three, so what
  they hold on entry (or whether the columns exist) does not matter.\<close>

record row =
  descr :: cell
  label :: "ustr option"
  descr_norm :: ustr
  descr_raw :: ustr

definition RAW_LABEL_SET :: "ustr set" where
  "RAW_LABEL_SET = {ustr ''por *'', ustr ''__RAW__por_mxn_cargo''}"

text \<open>A row of the extraction result that \<open>dropna(how="all")\<close> drops.\<close>

definition all_na :: "ustr option list \<Rightarrow> bool" where
  "all_na gs = list_all (\<lambda>g. g = None) gs"

text \<open>The two substitutions of \<open>build_label\<close>: \<open>\\s*\\|\\s*\<close> and \<open>\\s+\<close>.\<close>

definition pipe_pat :: re where
  "pipe_pat = cat [star sp, lit ''|'', star sp]"

definition build_label :: "ustr \<Rightarrow> ustr option \<Rightarrow> ustr" where
  "build_label lab g0 =
     (case g0 of
        None \<Rightarrow> lab
      | Some g \<Rightarrow>
          (let gstr = py_strip g;
               gstr = re_sub pipe_pat (ustr '' '') gstr;
               gstr = py_strip (re_sub (plus sp) (ustr '' '') gstr)
           in if py_in (ustr ''****'') lab then py_replace lab (ustr ''****'') gstr
              else if py_startswith (py_lower lab) (ustr ''spei enviado'') \<or>
                      py_startswith (py_lower lab) (ustr ''spei recibido'')
                then lab @ ustr '': '' @ gstr
              else if py_startswith (py_lower lab) (ustr ''devoluci'' @ [243] @ ustr ''n de spei'')
                then lab @ ustr '': '' @ gstr
              else if py_startswith (py_lower lab) (ustr ''retiro de recursos'')
                then lab @ ustr '' Beneficiario '' @ gstr
              else if py_startswith (py_lower lab) (ustr ''entrega de recursos'')
                then lab @ ustr '' '' @ gstr
              else lab @ ustr '' '' @ gstr))"

text \<open>The branch of a pattern with groups.  The extraction runs on the raw text of the
  rows without a label; when it finds nothing in any of them it runs again on their
  normalized text.  Every row with a captured group gets the label built from group 1.\<close>

definition group_rule :: "re \<Rightarrow> ustr \<Rightarrow> row list \<Rightarrow> row list" where
  "group_rule pattern lab df =
     (let use_norm = list_all (\<lambda>r. all_na (str_extract pattern (descr_raw r)))
                       (filter (\<lambda>r. label r = None) df);
          extracted = (\<lambda>r. str_extract pattern (if use_norm then descr_norm r else descr_raw r))
      in map (\<lambda>r. if label r = None \<and> \<not> all_na (extracted r)
                  then (case extracted r of
                          [] \<Rightarrow> r
                        | g # gs \<Rightarrow> r\<lparr>label := Some (build_label lab g)\<rparr>)
                  else r) df)"

text \<open>The clean-up of the rule \<open>__RAW__por_mxn_cargo\<close>:
  \<open>Cargo a cuenta por deposito con cheque .*?\\|\<close>, ignoring case.\<close>

definition cargo_pat :: re where
  "cargo_pat = cat [lit ''Cargo a cuenta por deposito con cheque '', lazy_star (Any False), lit ''|'']"

definition raw_label :: "ustr \<Rightarrow> ustr \<Rightarrow> ustr" where
  "raw_label lab raw =
     py_strip (if lab = ustr ''__RAW__por_mxn_cargo'' then re_sub cargo_pat [] raw else raw)"

text \<open>The branch of the two raw labels: containment in the raw text.\<close>

definition raw_rule :: "re \<Rightarrow> ustr \<Rightarrow> row list \<Rightarrow> row list" where
  "raw_rule pattern lab df =
     map (\<lambda>r. if label r = None \<and> str_contains pattern (descr_raw r)
              then r\<lparr>label := Some (raw_label lab (descr_raw r))\<rparr> else r) df"

text \<open>The last branch: containment in the normalized text, the label as it is.\<close>

definition literal_rule :: "re \<Rightarrow> ustr \<Rightarrow> row list \<Rightarrow> row list" where
  "literal_rule pattern lab df =
     map (\<lambda>r. if label r = None \<and> str_contains pattern (descr_norm r)
              then r\<lparr>label := Some lab\<rparr> else r) df"

definition rule_body :: "rule \<Rightarrow> row list \<Rightarrow> row list" where
  "rule_body rl df =
     (case rl of (pattern, lab, debug) \<Rightarrow>
        if groups pattern > 0 then group_rule pattern lab df
        else if lab \<in> RAW_LABEL_SET then raw_rule pattern lab df
        else literal_rule pattern lab df)"

text \<open>The loop over the rules, with its \<open>break\<close> when no row is left without a label.\<close>

fun rules_loop :: "rule list \<Rightarrow> row list \<Rightarrow> row list" where
  "rules_loop [] df = df"
| "rules_loop (rl # rls) df =
     (if \<not> list_ex (\<lambda>r. label r = None) df then df
      else rules_loop rls (rule_body rl df))"

text \<open>The set-up before the loop: the label column is cleared and the working columns
  are computed from the description.\<close>

definition prepare :: "row \<Rightarrow> row" where
  "prepare r =
     r\<lparr>label := None,
       descr_norm := normalize_text (Some (fillna_astype_str (descr r))),
       descr_raw := fillna_astype_str (descr r)\<rparr>"

text \<open>\<open>df["label"].fillna("UNKNOWN")\<close> on one row.\<close>

definition fill_unknown :: "row \<Rightarrow> row" where
  "fill_unknown r = (case label r of None \<Rightarrow> r\<lparr>label := Some (ustr ''UNKNOWN'')\<rparr> | Some l \<Rightarrow> r)"

text \<open>\<open>apply_rules_vectorized\<close> over a rule table, and over the table of the module.\<close>

definition apply_rules :: "rule list \<Rightarrow> row list \<Rightarrow> row list" where
  "apply_rules rules df = map fill_unknown (rules_loop rules (map prepare df))"

definition apply_rules_vectorized :: "row list \<Rightarrow> row list" where
  "apply_rules_vectorized df = apply_rules compiled_rules df"

section \<open>First match, row by row\<close>

text \<open>What the first matching rule gives one row when the rows are looked at one at a
  time, in table order.  A pattern with groups that finds nothing in the raw text but
  something in the normalized text depends on the other rows of the batch.\<close>

datatype outcome = Decided ustr | Unmatched | Batch_dependent

fun first_match :: "rule list \<Rightarrow> ustr \<Rightarrow> ustr \<Rightarrow> outcome" where
  "first_match [] raw nrm = Unmatched"
| "first_match ((pattern, lab, debug) # rls) raw nrm =
     (if groups pattern > 0 then
        (case str_extract pattern raw of
           [] \<Rightarrow> first_match rls raw nrm
         | g # gs \<Rightarrow>
             if \<not> all_na (g # gs) then Decided (build_label lab g)
             else if all_na (str_extract pattern nrm) then first_match rls raw nrm
             else Batch_dependent)
      else if lab \<in> RAW_LABEL_SET then
        (if str_contains pattern raw then Decided (raw_label lab raw) else first_match rls raw nrm)
      else
        (if str_contains pattern nrm then Decided lab else first_match rls raw nrm))"

text \<open>The outcome for a description as \<open>apply_rules\<close> prepares it.\<close>

definition classify_one :: "rule list \<Rightarrow> cell \<Rightarrow> outcome" where
  "classify_one rules c =
     first_match rules (fillna_astype_str c) (normalize_text (Some (fillna_astype_str c)))"

section \<open>The loop, row by row\<close>

text \<open>Every rule works row by row on the rows without a label; only the choice between
  raw and normalized extraction looks at the whole batch.\<close>

lemma str_extract_length: "length (str_extract p s) = groups p"
  by (simp add: str_extract_def split: option.split prod.split)

lemma group_rule_nth:
  assumes "i < length df"
  shows "group_rule p lab df ! i =
     (let r = df ! i;
          use_norm = (\<forall>r' \<in> set df. label r' = None \<longrightarrow> all_na (str_extract p (descr_raw r')));
          ex = str_extract p (if use_norm then descr_norm r else descr_raw r)
      in if label r = None \<and> \<not> all_na ex
         then r\<lparr>label := Some (build_label lab (hd ex))\<rparr> else r)"
proof -
  have "\<not> all_na ex \<Longrightarrow> ex \<noteq> []" for ex by (auto simp: all_na_def)
  then show ?thesis using assms
    by (auto simp: group_rule_def Let_def list_all_iff split: list.split)
qed

lemma length_group_rule: "length (group_rule p lab df) = length df"
  by (simp add: group_rule_def Let_def)

lemma length_rule_body: "length (rule_body rl df) = length df"
  by (simp add: rule_body_def group_rule_def raw_rule_def literal_rule_def Let_def split: prod.split)

lemma length_rules_loop: "length (rules_loop rls df) = length df"
  by (induction rls arbitrary: df) (simp_all add: length_rule_body)

lemma rule_body_keeps:
  assumes "i < length df"
  shows "descr (rule_body rl df ! i) = descr (df ! i)"
    and "descr_raw (rule_body rl df ! i) = descr_raw (df ! i)"
    and "descr_norm (rule_body rl df ! i) = descr_norm (df ! i)"
    and "label (df ! i) = Some l \<Longrightarrow> label (rule_body rl df ! i) = Some l"
    and "label (df ! i) = Some l \<Longrightarrow> rule_body rl df ! i = df ! i"
  using assms
  by (auto simp: rule_body_def group_rule_nth raw_rule_def literal_rule_def Let_def split: prod.split)

lemma rules_loop_keeps:
  assumes "i < length df"
  shows "descr (rules_loop rls df ! i) = descr (df ! i)"
    and "descr_raw (rules_loop rls df ! i) = descr_raw (df ! i)"
    and "descr_norm (rules_loop rls df ! i) = descr_norm (df ! i)"
    and "label (df ! i) = Some l \<Longrightarrow> rules_loop rls df ! i = df ! i"
  using assms
  by (induction rls arbitrary: df) (simp_all add: length_rule_body rule_body_keeps)

lemma first_match_Cons:
  "first_match (rl # rls) raw nrm =
     (case first_match [rl] raw nrm of Unmatched \<Rightarrow> first_match rls raw nrm | out \<Rightarrow> out)"
  by (cases rl) (auto split: list.split)

lemma rule_body_first_match:
  assumes "i < length df" and "label (df ! i) = None"
  shows "first_match [rl] (descr_raw (df ! i)) (descr_norm (df ! i)) = Decided l \<Longrightarrow>
           label (rule_body rl df ! i) = Some l"
    and "first_match [rl] (descr_raw (df ! i)) (descr_norm (df ! i)) = Unmatched \<Longrightarrow>
           label (rule_body rl df ! i) = None"
proof -
  obtain p lab dbg where rl: "rl = (p, lab, dbg)" by (cases rl)
  have mem: "df ! i \<in> set df" using assms(1) by simp
  have ne: "groups p > 0 \<Longrightarrow> str_extract p s \<noteq> []" for s
    using str_extract_length [of p s] by auto
  { assume d: "first_match [rl] (descr_raw (df ! i)) (descr_norm (df ! i)) = Decided l"
    show "label (rule_body rl df ! i) = Some l"
    proof (cases "groups p > 0")
      case True
      from d True ne [OF True, of "descr_raw (df ! i)"]
      have hit: "\<not> all_na (str_extract p (descr_raw (df ! i)))"
        and l: "l = build_label lab (hd (str_extract p (descr_raw (df ! i))))"
        by (auto simp: rl split: list.splits if_splits)
      from hit mem assms(2)
      have "group_rule p lab df ! i = (df ! i)\<lparr>label := Some l\<rparr>"
        by (auto simp: group_rule_nth [OF assms(1)] Let_def l)
      then show ?thesis using True by (simp add: rl rule_body_def)
    next
      case False
      then show ?thesis using d assms
        by (auto simp: rl rule_body_def raw_rule_def literal_rule_def split: if_splits)
    qed }
  { assume u: "first_match [rl] (descr_raw (df ! i)) (descr_norm (df ! i)) = Unmatched"
    show "label (rule_body rl df ! i) = None"
    proof (cases "groups p > 0")
      case True
      from u True ne [OF True, of "descr_raw (df ! i)"]
      have "all_na (str_extract p (descr_raw (df ! i)))"
        and "all_na (str_extract p (descr_norm (df ! i)))"
        by (auto simp: rl split: list.splits if_splits)
      then show ?thesis using True assms
        by (simp add: rl rule_body_def group_rule_nth Let_def)
    next
      case False
      then show ?thesis using u assms
        by (auto simp: rl rule_body_def raw_rule_def literal_rule_def split: if_splits)
    qed }
qed

lemma rules_loop_first_match:
  assumes "i < length df" and "label (df ! i) = None"
  shows "first_match rls (descr_raw (df ! i)) (descr_norm (df ! i)) = Decided l \<Longrightarrow>
           label (rules_loop rls df ! i) = Some l"
    and "first_match rls (descr_raw (df ! i)) (descr_norm (df ! i)) = Unmatched \<Longrightarrow>
           label (rules_loop rls df ! i) = None"
  using assms
proof (induction rls arbitrary: df)
  case Nil
  { case 1 then show ?case by simp
  next
    case 2 then show ?case by simp }
next
  case (Cons rl rls)
  have ex: "list_ex (\<lambda>r. label r = None) df" if "i < length df" "label (df ! i) = None" for df :: "row list"
    using that by (auto simp: list_ex_iff intro: bexI [of _ "df ! i"])
  { case 1
    show ?case
    proof (cases "first_match [rl] (descr_raw (df ! i)) (descr_norm (df ! i))")
      case (Decided l')
      with 1 have "l' = l" by (simp add: first_match_Cons [of rl rls])
      with Decided 1 have "label (rule_body rl df ! i) = Some l"
        by (simp add: rule_body_first_match)
      then have "rules_loop rls (rule_body rl df) ! i = rule_body rl df ! i"
        using 1 by (simp add: rules_loop_keeps length_rule_body)
      then show ?thesis using ex 1 \<open>label (rule_body rl df ! i) = Some l\<close> by simp
    next
      case Unmatched
      with 1 have a: "label (rule_body rl df ! i) = None"
        and b: "first_match rls (descr_raw (df ! i)) (descr_norm (df ! i)) = Decided l"
        by (simp_all add: rule_body_first_match first_match_Cons [of rl rls])
      from Cons.IH(1) [of "rule_body rl df"] a b 1
      have "label (rules_loop rls (rule_body rl df) ! i) = Some l"
        by (simp add: length_rule_body rule_body_keeps)
      then show ?thesis using ex 1 by simp
    next
      case Batch_dependent
      with 1 show ?thesis by (simp add: first_match_Cons [of rl rls])
    qed
  next
    case 2
    from 2 have u: "first_match [rl] (descr_raw (df ! i)) (descr_norm (df ! i)) = Unmatched"
      and b: "first_match rls (descr_raw (df ! i)) (descr_norm (df ! i)) = Unmatched"
      by (auto simp: first_match_Cons [of rl rls] split: outcome.splits)
    with 2 have a: "label (rule_body rl df ! i) = None"
      by (simp add: rule_body_first_match)
    from Cons.IH(2) [of "rule_body rl df"] a b 2
    have "label (rules_loop rls (rule_body rl df) ! i) = None"
      by (simp add: length_rule_body rule_body_keeps)
    then show ?case using ex 2 by simp }
qed

lemma length_apply_rules: "length (apply_rules rules df) = length df"
  by (simp add: apply_rules_def length_rules_loop)

lemma apply_rules_classify_one:
  assumes "i < length df"
  shows "classify_one rules (descr (df ! i)) = Decided l \<Longrightarrow>
           label (apply_rules rules df ! i) = Some l"
    and "classify_one rules (descr (df ! i)) = Unmatched \<Longrightarrow>
           label (apply_rules rules df ! i) = Some (ustr ''UNKNOWN'')"
proof -
  let ?pre = "map prepare df"
  have p: "i < length ?pre" "label (?pre ! i) = None"
    "descr_raw (?pre ! i) = fillna_astype_str (descr (df ! i))"
    "descr_norm (?pre ! i) = normalize_text (Some (fillna_astype_str (descr (df ! i))))"
    using assms by (simp_all add: prepare_def)
  { assume "classify_one rules (descr (df ! i)) = Decided l"
    with rules_loop_first_match(1) [OF p(1,2), of rules l] p(3,4)
    have "label (rules_loop rules ?pre ! i) = Some l" by (simp add: classify_one_def)
    then show "label (apply_rules rules df ! i) = Some l"
      using assms by (simp add: apply_rules_def length_rules_loop fill_unknown_def) }
  { assume "classify_one rules (descr (df ! i)) = Unmatched"
    with rules_loop_first_match(2) [OF p(1,2), of rules] p(3,4)
    have "label (rules_loop rules ?pre ! i) = None" by (simp add: classify_one_def)
    then show "label (apply_rules rules df ! i) = Some (ustr ''UNKNOWN'')"
      using assms by (simp add: apply_rules_def length_rules_loop fill_unknown_def) }
qed

section \<open>Evaluating the matcher on given texts\<close>

text \<open>Rewriting a concrete search leaves the pattern, the state and the continuation of a
  matcher call alone (the congruence rules below say so) and works with equations on states
  in constructor form, which unfold the shorthands of the rule table one step at a time.\<close>

lemma str_extract_cong: "s = s' \<Longrightarrow> str_extract r s = str_extract r s'" by simp

lemma str_contains_cong: "s = s' \<Longrightarrow> str_contains r s = str_contains r s'" by simp

lemma re_search_cong: "s = s' \<Longrightarrow> re_search r s = re_search r s'" by simp

lemma re_sub_cong: "s = s' \<Longrightarrow> re_sub r repl s = re_sub r repl s'" by simp

lemma m_cat_Nil: "m (cat []) st k = k st" by (simp add: cat_def)

lemma m_cat_Cons: "m (cat (r # rs)) st k = m r st (\<lambda>st'. m (cat rs) st' k)" by (simp add: cat_def)

lemma m_cat_append: "m (cat (xs @ ys)) st k = m (cat xs) st (\<lambda>st'. m (cat ys) st' k)"
  by (induction xs arbitrary: st) (simp_all add: cat_def)

lemma m_lit_Nil: "m (lit []) st k = k st" by (simp add: lit_def cat_def)

lemma m_lit_Cons: "m (lit (c # cs)) st k =
  (case rest st of [] \<Rightarrow> None
   | x # xs \<Rightarrow> if lower_cp x = lower_cp (of_char c) then m (lit cs) (MState (Some x) xs (caps st)) k else None)"
  by (simp add: lit_def cat_def split: list.split)

lemma groups_cat: "groups (cat rs) = sum_list (map groups rs)"
  by (induction rs) (simp_all add: cat_def)

lemma groups_lit: "groups (lit s) = 0"
  by (induction s) (simp_all add: lit_def cat_def)

lemma m_pipe_pat: "m pipe_pat st k = m (cat [star sp, lit ''|'', star sp]) st k"
  by (simp add: pipe_pat_def)

lemma m_cargo_pat: "m cargo_pat st k =
    m (cat [lit ''Cargo a cuenta por deposito con cheque '', lazy_star (Any False), lit ''|'']) st k"
  by (simp add: cargo_pat_def)

lemma m_por_amount_mxn: "m (cat por_amount_mxn) st k =
    m (cat [lit ''por'', star sp, opt (lit ''(''), plus dig_comma, lit ''.'', times 2 d,
      opt (lit '')''), star sp, lit ''mxn'']) st k"
  by (simp add: por_amount_mxn_def)

lemma m_block: "m r st k = m r st k" by (rule refl)
lemma search_from_block: "search_from r p s = search_from r p s" by (rule refl)
lemma rep_opt_block: "n = n' \<Longrightarrow> hi = hi' \<Longrightarrow> rep_opt f n hi g st k = rep_opt f n' hi' g st k" by simp
lemma rep_min_block: "lo = lo' \<Longrightarrow> rep_min f lo st k = rep_min f lo' st k" by simp
lemma sub_go_block: "k = k' \<Longrightarrow> sub_go r repl p k s = sub_go r repl p k' s" by simp

lemma ev_Eps: "m Eps st k = k st" by simp
lemma ev_In_Nil: "m (In cs) (MState p [] c) k = None" by simp
lemma ev_In_Cons: "m (In cs) (MState p (x # xs) c) k =
   (if list_ex (\<lambda>i. item_match i x) cs then k (MState (Some x) xs c) else None)" by simp
lemma ev_Any_Nil: "m (Any dotall) (MState p [] c) k = None" by simp
lemma ev_Any_Cons: "m (Any dotall) (MState p (x # xs) c) k =
   (if dotall \<or> x \<noteq> 10 then k (MState (Some x) xs c) else None)" by simp
lemma ev_Bol_None: "m Bol (MState None s c) k = k (MState None s c)" by simp
lemma ev_Bol_Some: "m Bol (MState (Some y) s c) k = None" by simp
lemma ev_Wb_Nil: "m Wb (MState p [] c) k = (if word_at p then k (MState p [] c) else None)"
  by (simp add: next_cp_def word_at_def)
lemma ev_Wb_Cons: "m Wb (MState p (x # xs) c) k =
   (if word_at p \<noteq> is_word x then k (MState p (x # xs) c) else None)"
  by (simp add: next_cp_def word_at_def)
lemma ev_Seq: "m (Seq a b) st k = m a st (\<lambda>st'. m b st' k)" by simp
lemma ev_Rep: "m (Rep lo hi g r) st k =
     rep_min (m r) lo st
       (\<lambda>st'. case st' of MState p s c \<Rightarrow>
                 rep_opt (m r) (length s) (map_option (\<lambda>h. h - lo) hi) g (MState p s c) k)"
proof -
  have "(\<lambda>st'. rep_opt (m r) (length (rest st')) (map_option (\<lambda>h. h - lo) hi) g st' k) =
        (\<lambda>st'. case st' of MState p s c \<Rightarrow>
                 rep_opt (m r) (length s) (map_option (\<lambda>h. h - lo) hi) g (MState p s c) k)"
    by (auto split: mstate.split)
  then show ?thesis by simp
qed
lemma ev_Grp: "m (Grp n r) (MState p s c) k =
     m r (MState p s c)
       (\<lambda>st'. case st' of MState p' s' c' \<Rightarrow>
                 k (MState p' s' ((n, take (length s - length s') s) # c')))"
proof -
  have "(\<lambda>st'. k (MState (prev st') (rest st')
                        ((n, take (length s - length (rest st')) s) # caps st'))) =
        (\<lambda>st'. case st' of MState p' s' c' \<Rightarrow>
                 k (MState p' s' ((n, take (length s - length s') s) # c')))"
    by (auto split: mstate.split)
  then show ?thesis by simp
qed
lemma ev_rep_opt_0: "rep_opt f 0 hi g st k = k st" by simp
lemma ev_rep_opt_In_Nil: "rep_opt (m (In cs)) n hi g (MState p [] c) k = k (MState p [] c)"
  by (cases n) (simp_all split: option.split)
lemma ev_rep_opt_In_Cons: "rep_opt (m (In cs)) (Suc n) hi g (MState p (x # xs) c) k =
   (if hi = Some 0 \<or> \<not> list_ex (\<lambda>i. item_match i x) cs then k (MState p (x # xs) c)
    else if g then
      (case rep_opt (m (In cs)) n (map_option (\<lambda>h. h - 1) hi) g (MState (Some x) xs c) k of
         Some r \<Rightarrow> Some r | None \<Rightarrow> k (MState p (x # xs) c))
    else
      (case k (MState p (x # xs) c) of
         Some r \<Rightarrow> Some r
       | None \<Rightarrow> rep_opt (m (In cs)) n (map_option (\<lambda>h. h - 1) hi) g (MState (Some x) xs c) k))"
  by (simp split: option.split)
lemma ev_rep_opt_Any_Nil: "rep_opt (m (Any dotall)) n hi g (MState p [] c) k = k (MState p [] c)"
  by (cases n) (simp_all split: option.split)
lemma ev_rep_opt_Any_Cons: "rep_opt (m (Any dotall)) (Suc n) hi g (MState p (x # xs) c) k =
   (if hi = Some 0 \<or> \<not> (dotall \<or> x \<noteq> 10) then k (MState p (x # xs) c)
    else if g then
      (case rep_opt (m (Any dotall)) n (map_option (\<lambda>h. h - 1) hi) g (MState (Some x) xs c) k of
         Some r \<Rightarrow> Some r | None \<Rightarrow> k (MState p (x # xs) c))
    else
      (case k (MState p (x # xs) c) of
         Some r \<Rightarrow> Some r
       | None \<Rightarrow> rep_opt (m (Any dotall)) n (map_option (\<lambda>h. h - 1) hi) g (MState (Some x) xs c) k))"
  by (simp split: option.split)
lemma ev_rep_opt_cat: "rep_opt (m (cat rs)) (Suc n) hi g (MState p s c) k =
     (if hi = Some 0 then k (MState p s c)
      else if g then
        (case m (cat rs) (MState p s c)
                (\<lambda>st'. case st' of MState p' s' c' \<Rightarrow>
                   if length s' < length s
                   then rep_opt (m (cat rs)) n (map_option (\<lambda>h. h - 1) hi) g (MState p' s' c') k
                   else None) of
           Some r \<Rightarrow> Some r
         | None \<Rightarrow> k (MState p s c))
      else
        (case k (MState p s c) of
           Some r \<Rightarrow> Some r
         | None \<Rightarrow> m (cat rs) (MState p s c)
                (\<lambda>st'. case st' of MState p' s' c' \<Rightarrow>
                   if length s' < length s
                   then rep_opt (m (cat rs)) n (map_option (\<lambda>h. h - 1) hi) g (MState p' s' c') k
                   else None)))"
proof -
  have "(\<lambda>st'. if length (rest st') < length s then rep_opt (m (cat rs)) n (map_option (\<lambda>h. h - 1) hi) g st' k else None)
      = (\<lambda>st'. case st' of MState p' s' c' \<Rightarrow>
                   if length s' < length s
                   then rep_opt (m (cat rs)) n (map_option (\<lambda>h. h - 1) hi) g (MState p' s' c') k
                   else None)"
    by (auto split: mstate.split)
  then show ?thesis by (simp only: rep_opt.simps mstate.sel)
qed
lemma ev_rep_opt_lit: "rep_opt (m (lit cs)) (Suc n) hi g (MState p s c) k =
    rep_opt (m (cat [lit cs])) (Suc n) hi g (MState p s c) k"
proof -
  have "m (cat [lit cs]) = (m (lit cs) :: mstate \<Rightarrow> (mstate \<Rightarrow> 'a option) \<Rightarrow> 'a option)"
    by (intro ext) (simp add: m_cat_Cons m_cat_Nil)
  then show ?thesis by simp
qed
lemma ev_lit_Cons_Nil: "m (lit (ch # chs)) (MState p [] c) k = None"
  by (simp add: m_lit_Cons)
lemma ev_lit_Cons_Cons: "m (lit (ch # chs)) (MState p (x # xs) c) k =
   (if lower_cp x = lower_cp (of_char ch) then m (lit chs) (MState (Some x) xs c) k else None)"
  by (simp add: m_lit_Cons)
lemma ev_search_Nil: "search_from r p [] = map_option (Pair 0) (m r (MState p [] []) Some)" by simp
lemma ev_search_Cons: "search_from r p (x # xs) =
     (case m r (MState p (x # xs) []) Some of
        Some st \<Rightarrow> Some (0, st)
      | None \<Rightarrow> map_option (\<lambda>(n, st). (Suc n, st)) (search_from r (Some x) xs))" by simp
lemma ev_sub_Nil: "sub_go r repl p skip [] =
     (if skip = 0 \<and> m r (MState p [] []) Some \<noteq> None then repl else [])" by simp
lemma ev_sub_Suc: "sub_go r repl p (Suc k) (x # xs) = sub_go r repl (Some x) k xs" by simp
lemma ev_sub_0: "sub_go r repl p 0 (x # xs) =
     (case m r (MState p (x # xs) []) Some of
        None \<Rightarrow> x # sub_go r repl (Some x) 0 xs
      | Some st \<Rightarrow>
          (if length (rest st) < length (x # xs)
           then repl @ sub_go r repl (Some x) (length xs - length (rest st)) xs
           else repl @ x # sub_go r repl (Some x) 0 xs))" by simp

lemma ev_re_sub_Nil: "re_sub r repl [] = sub_go r repl None 0 []" by (simp add: re_sub_def)
lemma ev_re_sub_Cons: "re_sub r repl (x # xs) = sub_go r repl None 0 (x # xs)" by (simp add: re_sub_def)
lemma ev_re_search_Nil: "re_search r [] = search_from r None []" by (simp add: re_search_def)
lemma ev_re_search_Cons: "re_search r (x # xs) = search_from r None (x # xs)" by (simp add: re_search_def)

lemmas eval_congs = m_block search_from_block rep_opt_block rep_min_block sub_go_block
  str_extract_cong str_contains_cong re_search_cong re_sub_cong

lemmas eval_simps = classify_one_def compiled_rules_def raw_rules_def por_amount_mxn_def
  m_pipe_pat m_cargo_pat m_por_amount_mxn m_cat_Nil m_cat_Cons m_cat_append m_lit_Nil
  ev_Eps ev_In_Nil ev_In_Cons ev_Any_Nil ev_Any_Cons ev_Bol_None ev_Bol_Some ev_Wb_Nil ev_Wb_Cons
  ev_Seq ev_Rep ev_Grp ev_rep_opt_0 ev_rep_opt_In_Nil ev_rep_opt_In_Cons ev_rep_opt_Any_Nil
  ev_rep_opt_Any_Cons ev_rep_opt_cat ev_rep_opt_lit ev_lit_Cons_Nil ev_lit_Cons_Cons
  ev_search_Nil ev_search_Cons ev_sub_Nil ev_sub_Suc ev_sub_0
  ev_re_sub_Nil ev_re_sub_Cons ev_re_search_Nil ev_re_search_Cons groups_cat groups_lit
  ustr_def normalize_text_def nfkd_def decomp_def combining_def py_replace_def
  py_strip_def py_lower_def lower_cp_def is_space_def is_digit_def is_word_def str_extract_def
  str_contains_def all_na_def RAW_LABEL_SET_def raw_label_def build_label_def
  rep_min.simps word_at_def Let_def

lemmas eval_dels = m.simps(2,3,4,5,7,8) rep_opt.simps(2)

section \<open>The claims\<close>

subsection \<open>Shared facts\<close>

lemma rule_body_literal:
  "groups p = 0 \<Longrightarrow> lab \<notin> RAW_LABEL_SET \<Longrightarrow> rule_body (p, lab, dbg) df = literal_rule p lab df"
  by (simp add: rule_body_def)

lemma rule_body_raw:
  "groups p = 0 \<Longrightarrow> lab \<in> RAW_LABEL_SET \<Longrightarrow> rule_body (p, lab, dbg) df = raw_rule p lab df"
  by (simp add: rule_body_def)

lemma rule_body_group:
  "0 < groups p \<Longrightarrow> rule_body (p, lab, dbg) df = group_rule p lab df"
  by (simp add: rule_body_def)

lemma vectorized_decided:
  "i < length df \<Longrightarrow> classify_one compiled_rules (descr (df ! i)) = Decided l \<Longrightarrow>
     label (apply_rules_vectorized df ! i) = Some l"
  by (simp add: apply_rules_vectorized_def apply_rules_classify_one)

lemma vectorized_unmatched:
  "i < length df \<Longrightarrow> classify_one compiled_rules (descr (df ! i)) = Unmatched \<Longrightarrow>
     label (apply_rules_vectorized df ! i) = Some (ustr ''UNKNOWN'')"
  by (simp add: apply_rules_vectorized_def apply_rules_classify_one)

lemma first_rule:
  "hd compiled_rules = (fst (hd compiled_rules), ustr ''RAW_MATCH'', ustr ''RAW_PATTERN_AMOUNT_REF_7'')"
  "groups (fst (hd compiled_rules)) = 0"
  by (simp_all add: compiled_rules_def raw_rules_def groups_cat groups_lit)

lemma raw_match_not_raw: "ustr ''RAW_MATCH'' \<notin> RAW_LABEL_SET"
  by (simp add: RAW_LABEL_SET_def ustr_def)

lemma eval_nro_colon:
  "classify_one compiled_rules (Str (ustr ''(1.00) mxn Nro.: Ref/Docto # 1234567'')) =
     Decided (ustr ''RAW_MATCH'')"
  by (simp add: eval_simps del: eval_dels cong: eval_congs)

lemma eval_nro_colon_raw:
  "\<not> str_contains (cat [lit ''('', Rep 1 (Some 3) True d, star (cat [lit '','', times 3 d]), lit ''.'',
           times 2 d, lit '')'', star sp, lit ''mxn'', star sp, lit ''Nro'', opt (lit ''.''),
           star sp, lit ''Ref/Docto'', opt (lit ''.''), star sp, lit ''#'', star sp, times 7 d])
      (ustr ''(1.00) mxn Nro.: Ref/Docto # 1234567'')"
  by (simp add: eval_simps del: eval_dels cong: eval_congs)

text \<open>
  Claim C10.  Only the two labels \<open>por *\<close> and \<open>__RAW__por_mxn_cargo\<close> make a rule without
  groups a raw rule; with any other label it is a literal rule.  The first rule of the table
  has the label \<open>RAW_MATCH\<close>, the tag \<open>RAW_PATTERN_AMOUNT_REF_7\<close> and no group: it looks for
  its pattern in the normalized text and assigns the string \<open>RAW_MATCH\<close>.  The description
  \<open>(1.00) mxn Nro.: Ref/Docto # 1234567\<close> shows both: its raw text does not contain the
  pattern, its normalized text does, and its label is \<open>RAW_MATCH\<close>, not its raw text.
\<close>

theorem C10_raw_match_is_literal:
  "(\<forall>p lab dbg df. groups p = 0 \<longrightarrow>
       rule_body (p, lab, dbg) df =
         (if lab = ustr ''por *'' \<or> lab = ustr ''__RAW__por_mxn_cargo''
          then raw_rule p lab df else literal_rule p lab df)) \<and>
   snd (hd compiled_rules) = (ustr ''RAW_MATCH'', ustr ''RAW_PATTERN_AMOUNT_REF_7'') \<and>
   groups (fst (hd compiled_rules)) = 0 \<and>
   (\<forall>df i. i < length df \<longrightarrow> label (df ! i) = None \<longrightarrow>
       rule_body (hd compiled_rules) df ! i =
         (if str_contains (fst (hd compiled_rules)) (descr_norm (df ! i))
          then (df ! i)\<lparr>label := Some (ustr ''RAW_MATCH'')\<rparr> else df ! i)) \<and>
   (\<forall>df i. i < length df \<longrightarrow>
       descr (df ! i) = Str (ustr ''(1.00) mxn Nro.: Ref/Docto # 1234567'') \<longrightarrow>
       label (apply_rules_vectorized df ! i) = Some (ustr ''RAW_MATCH'')) \<and>
   \<not> str_contains (fst (hd compiled_rules)) (ustr ''(1.00) mxn Nro.: Ref/Docto # 1234567'')"
proof (intro conjI allI impI)
  fix p lab dbg and df :: "row list"
  assume "groups p = 0"
  then show "rule_body (p, lab, dbg) df =
         (if lab = ustr ''por *'' \<or> lab = ustr ''__RAW__por_mxn_cargo''
          then raw_rule p lab df else literal_rule p lab df)"
    by (simp add: rule_body_def RAW_LABEL_SET_def)
next
  show "snd (hd compiled_rules) = (ustr ''RAW_MATCH'', ustr ''RAW_PATTERN_AMOUNT_REF_7'')"
    using first_rule(1) by (metis snd_conv)
next
  show "groups (fst (hd compiled_rules)) = 0" by (rule first_rule(2))
next
  fix df :: "row list" and i
  assume "i < length df" "label (df ! i) = None"
  then show "rule_body (hd compiled_rules) df ! i =
         (if str_contains (fst (hd compiled_rules)) (descr_norm (df ! i))
          then (df ! i)\<lparr>label := Some (ustr ''RAW_MATCH'')\<rparr> else df ! i)"
    by (subst first_rule(1))
       (simp add: rule_body_literal [OF first_rule(2) raw_match_not_raw] literal_rule_def)
next
  fix df :: "row list" and i
  assume "i < length df"
    and "descr (df ! i) = Str (ustr ''(1.00) mxn Nro.: Ref/Docto # 1234567'')"
  then show "label (apply_rules_vectorized df ! i) = Some (ustr ''RAW_MATCH'')"
    using vectorized_decided [of i df] eval_nro_colon by simp
next
  show "\<not> str_contains (fst (hd compiled_rules)) (ustr ''(1.00) mxn Nro.: Ref/Docto # 1234567'')"
    using eval_nro_colon_raw by (simp add: compiled_rules_def raw_rules_def)
qed

theorem C10_raw_match_is_literal_witness:
  "label (apply_rules_vectorized
            [\<lparr>descr = Str (ustr ''(1.00) mxn Nro.: Ref/Docto # 1234567''), label = None,
              descr_norm = [], descr_raw = []\<rparr>] ! 0) = Some (ustr ''RAW_MATCH'')"
proof -
  have "\<forall>df i. i < length df \<longrightarrow>
       descr (df ! i) = Str (ustr ''(1.00) mxn Nro.: Ref/Docto # 1234567'') \<longrightarrow>
       label (apply_rules_vectorized df ! i) = Some (ustr ''RAW_MATCH'')"
    using C10_raw_match_is_literal by blast
  then show ?thesis by simp
qed

lemma search_from_iff:
  "search_from r p s \<noteq> None \<longleftrightarrow>
     (\<exists>pre suf. s = pre @ suf \<and>
        m r (MState (if pre = [] then p else Some (last pre)) suf []) Some \<noteq> None)"
proof (induction s arbitrary: p)
  case Nil
  then show ?case by simp
next
  case (Cons x xs)
  show ?case
  proof
    assume a: "search_from r p (x # xs) \<noteq> None"
    show "\<exists>pre suf. x # xs = pre @ suf \<and>
        m r (MState (if pre = [] then p else Some (last pre)) suf []) Some \<noteq> None"
    proof (cases "m r (MState p (x # xs) []) Some")
      case None
      with a have "search_from r (Some x) xs \<noteq> None" by auto
      then obtain pre suf where ps: "xs = pre @ suf"
        "m r (MState (if pre = [] then Some x else Some (last pre)) suf []) Some \<noteq> None"
        using Cons.IH [of "Some x"] by blast
      then have "x # xs = (x # pre) @ suf \<and>
        m r (MState (if x # pre = [] then p else Some (last (x # pre))) suf []) Some \<noteq> None"
        by auto
      then show ?thesis by blast
    next
      case (Some st)
      then have "x # xs = [] @ (x # xs) \<and>
        m r (MState (if ([]::ustr) = [] then p else Some (last [])) (x # xs) []) Some \<noteq> None"
        by simp
      then show ?thesis by blast
    qed
  next
    assume "\<exists>pre suf. x # xs = pre @ suf \<and>
        m r (MState (if pre = [] then p else Some (last pre)) suf []) Some \<noteq> None"
    then obtain pre suf where ps: "x # xs = pre @ suf"
      "m r (MState (if pre = [] then p else Some (last pre)) suf []) Some \<noteq> None" by blast
    show "search_from r p (x # xs) \<noteq> None"
    proof (cases pre)
      case Nil
      with ps show ?thesis by (auto split: option.split)
    next
      case (Cons y ys)
      with ps have xs: "xs = ys @ suf" and y: "y = x" by auto
      from ps Cons y
      have "m r (MState (if ys = [] then Some x else Some (last ys)) suf []) Some \<noteq> None"
        by (auto split: if_splits)
      with xs have "search_from r (Some x) xs \<noteq> None" using Cons.IH [of "Some x"] by blast
      then show ?thesis by (auto split: option.split)
    qed
  qed
qed

lemma str_contains_iff:
  "str_contains r s \<longleftrightarrow>
     (\<exists>pre suf. s = pre @ suf \<and>
        m r (MState (if pre = [] then None else Some (last pre)) suf []) Some \<noteq> None)"
  unfolding str_contains_def re_search_def by (rule search_from_iff)

lemma eval_comision:
  "classify_one compiled_rules (Str (ustr ''Comision por administracion'')) =
     Decided (ustr ''Comisi'' @ [243] @ ustr ''n'')"
  by (simp add: eval_simps del: eval_dels cong: eval_congs)

lemma eval_deposito_upper:
  "classify_one compiled_rules (Str (ustr ''DEP'' @ [211] @ ustr ''SITO EN EFECTIVO'')) =
     Decided (ustr ''Dep'' @ [243] @ ustr ''sito en Efectivo'')"
  by (simp add: eval_simps del: eval_dels cong: eval_congs)

lemma eval_deposito_lower:
  "classify_one compiled_rules (Str (ustr ''deposito en efectivo'')) =
     Decided (ustr ''Dep'' @ [243] @ ustr ''sito en Efectivo'')"
  by (simp add: eval_simps del: eval_dels cong: eval_congs)

lemma norm_deposito_upper:
  "normalize_text (Some (ustr ''DEP'' @ [211] @ ustr ''SITO EN EFECTIVO'')) = ustr ''deposito en efectivo''"
  by (simp add: eval_simps del: eval_dels cong: eval_congs)

lemma norm_deposito_lower:
  "normalize_text (Some (ustr ''deposito en efectivo'')) = ustr ''deposito en efectivo''"
  by (simp add: eval_simps del: eval_dels cong: eval_congs)

text \<open>
  Claim C7.  A rule without groups whose label is not one of the two raw labels looks for
  its pattern anywhere in the normalized text of a row without a label and, where it finds
  it, assigns its label as it is.  So \<open>Comision por administracion\<close> is labelled
  \<open>Comisi\<acute>on\<close>, and \<open>DEP\<acute>OSITO EN EFECTIVO\<close> has the same normalized text and the same
  label as \<open>deposito en efectivo\<close>, whatever else the batch holds.
\<close>

theorem C7_literal_rules_on_normalized_text:
  "(\<forall>p lab dbg df i. groups p = 0 \<longrightarrow> lab \<notin> RAW_LABEL_SET \<longrightarrow> i < length df \<longrightarrow>
       label (df ! i) = None \<longrightarrow>
       rule_body (p, lab, dbg) df ! i =
         (if \<exists>pre suf. descr_norm (df ! i) = pre @ suf \<and>
                m p (MState (if pre = [] then None else Some (last pre)) suf []) Some \<noteq> None
          then (df ! i)\<lparr>label := Some lab\<rparr> else df ! i)) \<and>
   (\<forall>df i. i < length df \<longrightarrow> descr (df ! i) = Str (ustr ''Comision por administracion'') \<longrightarrow>
       label (apply_rules_vectorized df ! i) = Some (ustr ''Comisi'' @ [243] @ ustr ''n'')) \<and>
   (\<forall>df i. i < length df \<longrightarrow>
       descr (df ! i) = Str (ustr ''DEP'' @ [211] @ ustr ''SITO EN EFECTIVO'') \<or>
       descr (df ! i) = Str (ustr ''deposito en efectivo'') \<longrightarrow>
       label (apply_rules_vectorized df ! i) = Some (ustr ''Dep'' @ [243] @ ustr ''sito en Efectivo'')) \<and>
   normalize_text (Some (ustr ''DEP'' @ [211] @ ustr ''SITO EN EFECTIVO'')) =
     normalize_text (Some (ustr ''deposito en efectivo''))"
proof (intro conjI allI impI)
  fix p lab dbg and df :: "row list" and i
  assume "groups p = 0" "lab \<notin> RAW_LABEL_SET" "i < length df" "label (df ! i) = None"
  then show "rule_body (p, lab, dbg) df ! i =
         (if \<exists>pre suf. descr_norm (df ! i) = pre @ suf \<and>
                m p (MState (if pre = [] then None else Some (last pre)) suf []) Some \<noteq> None
          then (df ! i)\<lparr>label := Some lab\<rparr> else df ! i)"
    by (simp add: rule_body_literal literal_rule_def str_contains_iff)
next
  fix df :: "row list" and i
  assume "i < length df" "descr (df ! i) = Str (ustr ''Comision por administracion'')"
  then show "label (apply_rules_vectorized df ! i) = Some (ustr ''Comisi'' @ [243] @ ustr ''n'')"
    using vectorized_decided [of i df] eval_comision by simp
next
  fix df :: "row list" and i
  assume "i < length df"
    "descr (df ! i) = Str (ustr ''DEP'' @ [211] @ ustr ''SITO EN EFECTIVO'') \<or>
       descr (df ! i) = Str (ustr ''deposito en efectivo'')"
  then show "label (apply_rules_vectorized df ! i) =
      Some (ustr ''Dep'' @ [243] @ ustr ''sito en Efectivo'')"
    using vectorized_decided [of i df] eval_deposito_upper eval_deposito_lower by auto
next
  show "normalize_text (Some (ustr ''DEP'' @ [211] @ ustr ''SITO EN EFECTIVO'')) =
     normalize_text (Some (ustr ''deposito en efectivo''))"
    by (simp only: norm_deposito_upper norm_deposito_lower)
qed

theorem C7_literal_rules_on_normalized_text_witness:
  "label (apply_rules_vectorized
            [\<lparr>descr = Str (ustr ''Comision por administracion''), label = None,
              descr_norm = [], descr_raw = []\<rparr>] ! 0) = Some (ustr ''Comisi'' @ [243] @ ustr ''n'')"
proof -
  have "\<forall>df i. i < length df \<longrightarrow> descr (df ! i) = Str (ustr ''Comision por administracion'') \<longrightarrow>
       label (apply_rules_vectorized df ! i) = Some (ustr ''Comisi'' @ [243] @ ustr ''n'')"
    using C7_literal_rules_on_normalized_text by blast
  then show ?thesis by simp
qed

lemma eval_cargo:
  "classify_one compiled_rules
     (Str (ustr ''Por (1,200.00) mxn Cargo a cuenta por deposito con cheque 123 | resto del texto'')) =
   Decided (ustr ''Por (1,200.00) mxn  resto del texto'')"
  by (simp add: eval_simps del: eval_dels cong: eval_congs)

text \<open>
  Claim C5.  A rule without groups whose label is one of the two raw labels looks for its
  pattern anywhere in the raw text of a row without a label; the label it assigns is the
  raw text, trimmed, and not the rule's label.  For \<open>__RAW__por_mxn_cargo\<close> every segment
  \<open>Cargo a cuenta por deposito con cheque ... |\<close> is first cut out of the raw text.  The
  description of scenario D is labelled with its raw text without that segment, trimmed.
\<close>

theorem C5_raw_passthrough:
  "(\<forall>p lab dbg df i. groups p = 0 \<longrightarrow> lab \<in> RAW_LABEL_SET \<longrightarrow> i < length df \<longrightarrow>
       label (df ! i) = None \<longrightarrow>
       rule_body (p, lab, dbg) df ! i =
         (if \<exists>pre suf. descr_raw (df ! i) = pre @ suf \<and>
                m p (MState (if pre = [] then None else Some (last pre)) suf []) Some \<noteq> None
          then (df ! i)\<lparr>label :=
                  Some (py_strip (if lab = ustr ''__RAW__por_mxn_cargo''
                                  then re_sub cargo_pat [] (descr_raw (df ! i))
                                  else descr_raw (df ! i)))\<rparr>
          else df ! i)) \<and>
   (\<forall>df i. i < length df \<longrightarrow>
       descr (df ! i) =
         Str (ustr ''Por (1,200.00) mxn '' @ ustr ''Cargo a cuenta por deposito con cheque 123 |'' @
              ustr '' resto del texto'') \<longrightarrow>
       label (apply_rules_vectorized df ! i) =
         Some (py_strip (ustr ''Por (1,200.00) mxn '' @ ustr '' resto del texto'')))"
proof (intro conjI allI impI)
  fix p lab dbg and df :: "row list" and i
  assume "groups p = 0" "lab \<in> RAW_LABEL_SET" "i < length df" "label (df ! i) = None"
  then show "rule_body (p, lab, dbg) df ! i =
         (if \<exists>pre suf. descr_raw (df ! i) = pre @ suf \<and>
                m p (MState (if pre = [] then None else Some (last pre)) suf []) Some \<noteq> None
          then (df ! i)\<lparr>label :=
                  Some (py_strip (if lab = ustr ''__RAW__por_mxn_cargo''
                                  then re_sub cargo_pat [] (descr_raw (df ! i))
                                  else descr_raw (df ! i)))\<rparr>
          else df ! i)"
    by (simp add: rule_body_raw raw_rule_def raw_label_def str_contains_iff)
next
  fix df :: "row list" and i
  assume "i < length df"
    and d: "descr (df ! i) =
         Str (ustr ''Por (1,200.00) mxn '' @ ustr ''Cargo a cuenta por deposito con cheque 123 |'' @
              ustr '' resto del texto'')"
  have "ustr ''Por (1,200.00) mxn '' @ ustr ''Cargo a cuenta por deposito con cheque 123 |'' @
              ustr '' resto del texto'' =
        ustr ''Por (1,200.00) mxn Cargo a cuenta por deposito con cheque 123 | resto del texto''"
    by (simp add: ustr_def)
  moreover have "py_strip (ustr ''Por (1,200.00) mxn '' @ ustr '' resto del texto'') =
      ustr ''Por (1,200.00) mxn  resto del texto''"
    by (simp add: ustr_def py_strip_def is_space_def)
  ultimately show "label (apply_rules_vectorized df ! i) =
         Some (py_strip (ustr ''Por (1,200.00) mxn '' @ ustr '' resto del texto''))"
    using vectorized_decided [of i df] eval_cargo d \<open>i < length df\<close> by simp
qed

theorem C5_raw_passthrough_witness:
  "label (apply_rules_vectorized
            [\<lparr>descr = Str (ustr ''Por (1,200.00) mxn '' @
                           ustr ''Cargo a cuenta por deposito con cheque 123 |'' @
                           ustr '' resto del texto''),
              label = None, descr_norm = [], descr_raw = []\<rparr>] ! 0) =
     Some (py_strip (ustr ''Por (1,200.00) mxn '' @ ustr '' resto del texto''))"
proof -
  have "\<forall>df i. i < length df \<longrightarrow>
       descr (df ! i) =
         Str (ustr ''Por (1,200.00) mxn '' @ ustr ''Cargo a cuenta por deposito con cheque 123 |'' @
              ustr '' resto del texto'') \<longrightarrow>
       label (apply_rules_vectorized df ! i) =
         Some (py_strip (ustr ''Por (1,200.00) mxn '' @ ustr '' resto del texto''))"
    using C5_raw_passthrough by blast
  from this [rule_format, of 0] show ?thesis by simp
qed

lemma rule_body_id:
  assumes "\<not> list_ex (\<lambda>r. label r = None) df"
  shows "rule_body rl df = df"
proof -
  have "\<forall>r \<in> set df. label r \<noteq> None" using assms by (simp add: list_ex_iff)
  then have "map (\<lambda>r. if label r = None \<and> P r then f r else r) df = df" for P f
    by (intro map_idI) auto
  then show ?thesis
    by (cases rl) (simp add: rule_body_def group_rule_def raw_rule_def literal_rule_def Let_def)
qed

lemma rules_loop_Cons: "rules_loop (rl # rls) df = rules_loop rls (rule_body rl df)"
proof (cases "list_ex (\<lambda>r. label r = None) df")
  case True
  then show ?thesis by simp
next
  case False
  then have "rule_body rl df = df" by (rule rule_body_id)
  moreover have "rules_loop rls df = df" using False by (cases rls) simp_all
  ultimately show ?thesis using False by simp
qed

lemma rules_loop_append: "rules_loop (xs @ ys) df = rules_loop ys (rules_loop xs df)"
proof (induction xs arbitrary: df)
  case Nil
  then show ?case by simp
next
  case (Cons x xs)
  have "rules_loop ((x # xs) @ ys) df = rules_loop (xs @ ys) (rule_body x df)"
    by (simp only: append_Cons rules_loop_Cons)
  also have "\<dots> = rules_loop ys (rules_loop xs (rule_body x df))" by (rule Cons.IH)
  also have "\<dots> = rules_loop ys (rules_loop (x # xs) df)" by (simp only: rules_loop_Cons)
  finally show ?case .
qed



text \<open>
  Claim C3.  For a rule whose pattern has a group, the choice between the raw and the
  normalized text is made once for the whole batch.  When the extraction from the raw text
  finds nothing in any row without a label, every such row is looked at again in its
  normalized text.  When it finds something in at least one such row, the normalized text
  is not used for this rule: a row whose raw text gives nothing keeps no label, even when
  its normalized text would have matched.
\<close>

theorem C3_batch_level_fallback:
  assumes "0 < groups p" and "i < length df" and "label (df ! i) = None"
  shows "((\<forall>r \<in> set df. label r = None \<longrightarrow> all_na (str_extract p (descr_raw r))) \<longrightarrow>
            rule_body (p, lab, dbg) df ! i =
              (if all_na (str_extract p (descr_norm (df ! i))) then df ! i
               else (df ! i)\<lparr>label :=
                      Some (build_label lab (hd (str_extract p (descr_norm (df ! i)))))\<rparr>)) \<and>
         ((\<exists>r \<in> set df. label r = None \<and> \<not> all_na (str_extract p (descr_raw r))) \<longrightarrow>
            rule_body (p, lab, dbg) df ! i =
              (if all_na (str_extract p (descr_raw (df ! i))) then df ! i
               else (df ! i)\<lparr>label :=
                      Some (build_label lab (hd (str_extract p (descr_raw (df ! i)))))\<rparr>))"
proof (intro conjI impI)
  assume "\<forall>r \<in> set df. label r = None \<longrightarrow> all_na (str_extract p (descr_raw r))"
  then show "rule_body (p, lab, dbg) df ! i =
              (if all_na (str_extract p (descr_norm (df ! i))) then df ! i
               else (df ! i)\<lparr>label :=
                      Some (build_label lab (hd (str_extract p (descr_norm (df ! i)))))\<rparr>)"
    using assms by (simp add: rule_body_group group_rule_nth Let_def)
next
  assume "\<exists>r \<in> set df. label r = None \<and> \<not> all_na (str_extract p (descr_raw r))"
  then have "(\<forall>r' \<in> set df. label r' = None \<longrightarrow> all_na (str_extract p (descr_raw r'))) = False"
    by blast
  then show "rule_body (p, lab, dbg) df ! i =
              (if all_na (str_extract p (descr_raw (df ! i))) then df ! i
               else (df ! i)\<lparr>label :=
                      Some (build_label lab (hd (str_extract p (descr_raw (df ! i)))))\<rparr>)"
    using assms by (simp only: rule_body_group group_rule_nth Let_def) simp
qed

lemma eval_extract_enviado:
  "str_extract (cat [Bol, star sp, Grp 1 (lit ''spei enviado''), opt colon_sp, star (Any False)])
     (ustr ''spei  enviado'') = [None]"
  "str_extract (cat [Bol, star sp, Grp 1 (lit ''spei enviado''), opt colon_sp, star (Any False)])
     (ustr ''spei enviado'') = [Some (ustr ''spei enviado'')]"
  by (simp_all add: eval_simps del: eval_dels cong: eval_congs)

theorem C3_batch_level_fallback_witness:
  "rule_body (cat [Bol, star sp, Grp 1 (lit ''spei enviado''), opt colon_sp, star (Any False)],
              ustr ''SPEI Enviado'', ustr ''SPEI Enviado'')
     [\<lparr>descr = Str (ustr ''spei  enviado''), label = None,
       descr_norm = ustr ''spei enviado'', descr_raw = ustr ''spei  enviado''\<rparr>,
      \<lparr>descr = Str (ustr ''spei enviado''), label = None,
       descr_norm = ustr ''spei enviado'', descr_raw = ustr ''spei enviado''\<rparr>] ! 0 =
   \<lparr>descr = Str (ustr ''spei  enviado''), label = None,
     descr_norm = ustr ''spei enviado'', descr_raw = ustr ''spei  enviado''\<rparr> \<and>
   rule_body (cat [Bol, star sp, Grp 1 (lit ''spei enviado''), opt colon_sp, star (Any False)],
              ustr ''SPEI Enviado'', ustr ''SPEI Enviado'')
     [\<lparr>descr = Str (ustr ''spei  enviado''), label = None,
       descr_norm = ustr ''spei enviado'', descr_raw = ustr ''spei  enviado''\<rparr>] ! 0 =
   \<lparr>descr = Str (ustr ''spei  enviado''),
     label = Some (build_label (ustr ''SPEI Enviado'') (Some (ustr ''spei enviado''))),
     descr_norm = ustr ''spei enviado'', descr_raw = ustr ''spei  enviado''\<rparr>"
proof -
  define p where "p = cat [Bol, star sp, Grp 1 (lit ''spei enviado''), opt colon_sp, star (Any False)]"
  define x where "x = \<lparr>descr = Str (ustr ''spei  enviado''), label = None,
       descr_norm = ustr ''spei enviado'', descr_raw = ustr ''spei  enviado''\<rparr>"
  define y where "y = \<lparr>descr = Str (ustr ''spei enviado''), label = None,
       descr_norm = ustr ''spei enviado'', descr_raw = ustr ''spei enviado''\<rparr>"
  have g: "0 < groups p" by (simp add: p_def groups_cat groups_lit)
  have ex: "str_extract p (ustr ''spei  enviado'') = [None]"
    "str_extract p (ustr ''spei enviado'') = [Some (ustr ''spei enviado'')]"
    unfolding p_def by (rule eval_extract_enviado)+
  have sel: "label x = None" "label y = None" "descr_raw x = ustr ''spei  enviado''"
    "descr_raw y = ustr ''spei enviado''" "descr_norm x = ustr ''spei enviado''"
    by (simp_all add: x_def y_def)
  have pair: "\<exists>r \<in> set [x, y]. label r = None \<and> \<not> all_na (str_extract p (descr_raw r))"
    by (simp add: sel ex all_na_def)
  have alone: "\<forall>r \<in> set [x]. label r = None \<longrightarrow> all_na (str_extract p (descr_raw r))"
    by (simp add: sel ex all_na_def)
  have "rule_body (p, ustr ''SPEI Enviado'', ustr ''SPEI Enviado'') [x, y] ! 0 = x"
    using C3_batch_level_fallback [OF g, of 0 "[x, y]" "ustr ''SPEI Enviado''" "ustr ''SPEI Enviado''"] pair
    by (simp add: sel ex all_na_def)
  moreover have "rule_body (p, ustr ''SPEI Enviado'', ustr ''SPEI Enviado'') [x] ! 0 =
      x\<lparr>label := Some (build_label (ustr ''SPEI Enviado'') (Some (ustr ''spei enviado'')))\<rparr>"
    using C3_batch_level_fallback [OF g, of 0 "[x]" "ustr ''SPEI Enviado''" "ustr ''SPEI Enviado''"] alone
    by (simp add: sel ex all_na_def)
  ultimately show ?thesis by (simp add: p_def x_def y_def)
qed

lemma prepare_descr_only: "descr r1 = descr r2 \<Longrightarrow> prepare r1 = prepare r2"
  by (cases r1, cases r2) (simp add: prepare_def)

lemma map_prepare_cong: "map descr df1 = map descr df2 \<Longrightarrow> map prepare df1 = map prepare df2"
proof (induction df1 arbitrary: df2)
  case Nil
  then show ?case by simp
next
  case (Cons r rs)
  then obtain r' rs' where d: "df2 = r' # rs'" by (cases df2) auto
  with Cons.prems have "descr r = descr r'" and "map descr rs = map descr rs'" by simp_all
  then have "prepare r = prepare r'" and "map prepare rs = map prepare rs'"
    using Cons.IH prepare_descr_only by blast+
  then show ?case by (simp add: d)
qed

lemma descr_fill_unknown: "descr (fill_unknown r) = descr r"
  by (simp add: fill_unknown_def split: option.split)

lemma map_descr_apply_rules: "map descr (apply_rules rules df) = map descr df"
proof (rule nth_equalityI)
  show "length (map descr (apply_rules rules df)) = length (map descr df)"
    by (simp add: length_apply_rules)
next
  fix i assume "i < length (map descr (apply_rules rules df))"
  then have i: "i < length df" by (simp add: length_apply_rules)
  then show "map descr (apply_rules rules df) ! i = map descr df ! i"
    by (simp add: apply_rules_def length_rules_loop descr_fill_unknown rules_loop_keeps prepare_def)
qed

text \<open>
  Claim C8, as amended.  The result of the classifier is a function of the description
  column of the whole batch and of the rule table: two batches with the same descriptions
  get the same result, whatever their label columns held before, and running the classifier
  on its own result changes nothing.  (A single row's label is not a function of that row's
  text alone: see the counterexample below.)
\<close>

theorem C8_function_of_the_batch_texts:
  "(map descr df1 = map descr df2 \<longrightarrow> apply_rules_vectorized df1 = apply_rules_vectorized df2) \<and>
   apply_rules_vectorized (apply_rules_vectorized df) = apply_rules_vectorized df"
proof
  show "map descr df1 = map descr df2 \<longrightarrow> apply_rules_vectorized df1 = apply_rules_vectorized df2"
  proof
    assume "map descr df1 = map descr df2"
    then have "map prepare df1 = map prepare df2" by (rule map_prepare_cong)
    then show "apply_rules_vectorized df1 = apply_rules_vectorized df2"
      by (simp only: apply_rules_vectorized_def apply_rules_def)
  qed
  have "map descr (apply_rules_vectorized df) = map descr df"
    by (simp only: apply_rules_vectorized_def map_descr_apply_rules)
  then have "map prepare (apply_rules_vectorized df) = map prepare df" by (rule map_prepare_cong)
  then have "apply_rules compiled_rules (apply_rules_vectorized df) = apply_rules compiled_rules df"
    by (simp only: apply_rules_def)
  then show "apply_rules_vectorized (apply_rules_vectorized df) = apply_rules_vectorized df"
    by (simp only: apply_rules_vectorized_def)
qed

theorem C8_function_of_the_batch_texts_witness:
  "apply_rules_vectorized
     [\<lparr>descr = Str (ustr ''nomina''), label = Some (ustr ''old''), descr_norm = [], descr_raw = []\<rparr>] =
   apply_rules_vectorized
     [\<lparr>descr = Str (ustr ''nomina''), label = None, descr_norm = ustr ''x'', descr_raw = []\<rparr>]"
  using C8_function_of_the_batch_texts
    [of "[\<lparr>descr = Str (ustr ''nomina''), label = Some (ustr ''old''), descr_norm = [], descr_raw = []\<rparr>]"
        "[\<lparr>descr = Str (ustr ''nomina''), label = None, descr_norm = ustr ''x'', descr_raw = []\<rparr>]"]
  by simp

lemma rules_loop_split:
  assumes "n < length rules"
  shows "rules_loop rules df =
     rules_loop (drop (Suc n) rules) (rule_body (rules ! n) (rules_loop (take n rules) df))"
proof -
  have "rules = take n rules @ rules ! n # drop (Suc n) rules"
    using assms by (rule id_take_nth_drop)
  then have "rules_loop rules df = rules_loop (take n rules @ rules ! n # drop (Suc n) rules) df"
    by simp
  then show ?thesis by (simp only: rules_loop_append rules_loop_Cons)
qed

lemma length_compiled_rules: "length compiled_rules = 29"
  by (simp add: compiled_rules_def raw_rules_def)

lemma compiled_rules_16:
  "compiled_rules ! 16 =
     (cat [Bol, star sp, Grp 1 (lit ''spei enviado''), opt colon_sp, star (Any False)],
      ustr ''SPEI Enviado'', ustr ''SPEI Enviado'')"
  by (simp add: compiled_rules_def raw_rules_def)

lemma eval_norm_enviado:
  "normalize_text (Some (ustr ''spei  enviado'')) = ustr ''spei enviado''"
  "normalize_text (Some (ustr ''spei enviado'')) = ustr ''spei enviado''"
  by (simp_all add: eval_simps del: eval_dels cong: eval_congs)

lemma eval_before_16:
  "first_match (take 16 compiled_rules) (ustr ''spei  enviado'') (ustr ''spei enviado'') = Unmatched"
  "first_match (take 16 compiled_rules) (ustr ''spei enviado'') (ustr ''spei enviado'') = Unmatched"
  by (simp_all add: eval_simps del: eval_dels cong: eval_congs)

lemma eval_after_16:
  "first_match (drop 17 compiled_rules) (ustr ''spei  enviado'') (ustr ''spei enviado'') = Unmatched"
  by (simp add: eval_simps del: eval_dels cong: eval_congs)

lemma eval_label_enviado:
  "build_label (ustr ''SPEI Enviado'') (Some (ustr ''spei enviado'')) = ustr ''SPEI Enviado: spei enviado''"
  by (simp add: eval_simps del: eval_dels cong: eval_congs)


lemma list2_nth: "length xs = 2 \<Longrightarrow> xs = [xs ! 0, xs ! 1]"
  by (cases xs; cases "tl xs") auto

lemma list1_nth: "length xs = 1 \<Longrightarrow> xs = [xs ! 0]"
  by (cases xs) auto

text \<open>
  Claim C8, counterexample.  The row with the description \<open>spei  enviado\<close> (two spaces)
  is labelled \<open>SPEI Enviado: spei enviado\<close> when it is alone in the batch and \<open>UNKNOWN\<close>
  when the batch also holds a row \<open>spei enviado\<close>: the later row makes the raw extraction
  of rule 16 succeed somewhere, so the first row never gets the normalized fallback.
\<close>

theorem C8_counterexample:
  "label (apply_rules_vectorized
            [\<lparr>descr = Str (ustr ''spei  enviado''), label = None, descr_norm = [], descr_raw = []\<rparr>]
          ! 0) = Some (ustr ''SPEI Enviado: spei enviado'') \<and>
   label (apply_rules_vectorized
            [\<lparr>descr = Str (ustr ''spei  enviado''), label = None, descr_norm = [], descr_raw = []\<rparr>,
             \<lparr>descr = Str (ustr ''spei enviado''), label = None, descr_norm = [], descr_raw = []\<rparr>]
          ! 0) = Some (ustr ''UNKNOWN'')"
proof -
  define p where "p = cat [Bol, star sp, Grp 1 (lit ''spei enviado''), opt colon_sp, star (Any False)]"
  define x where "x = \<lparr>descr = Str (ustr ''spei  enviado''), label = None,
       descr_norm = [], descr_raw = []\<rparr>"
  define y where "y = \<lparr>descr = Str (ustr ''spei enviado''), label = None,
       descr_norm = [], descr_raw = []\<rparr>"
  define pre where "pre = take 16 compiled_rules"
  define post where "post = drop (Suc 16) compiled_rules"
  have r16: "compiled_rules ! 16 = (p, ustr ''SPEI Enviado'', ustr ''SPEI Enviado'')"
    unfolding p_def by (rule compiled_rules_16)
  have g: "0 < groups p" by (simp add: p_def groups_cat groups_lit)
  have ex: "str_extract p (ustr ''spei  enviado'') = [None]"
    "str_extract p (ustr ''spei enviado'') = [Some (ustr ''spei enviado'')]"
    unfolding p_def by (rule eval_extract_enviado)+
  have split: "apply_rules_vectorized df =
      map fill_unknown (rules_loop post (group_rule p (ustr ''SPEI Enviado'')
        (rules_loop pre (map prepare df))))" for df
    using rules_loop_split [of 16 compiled_rules "map prepare df"] g
    by (simp add: apply_rules_vectorized_def apply_rules_def length_compiled_rules r16
          rule_body_group pre_def post_def)
  have prep: "label (prepare r) = None" "descr_raw (prepare x) = ustr ''spei  enviado''"
    "descr_norm (prepare x) = ustr ''spei enviado''" "descr_raw (prepare y) = ustr ''spei enviado''"
    "descr_norm (prepare y) = ustr ''spei enviado''" for r
    by (simp_all add: prepare_def x_def y_def eval_norm_enviado)
  have before: "first_match pre (ustr ''spei  enviado'') (ustr ''spei enviado'') = Unmatched"
    "first_match pre (ustr ''spei enviado'') (ustr ''spei enviado'') = Unmatched"
    unfolding pre_def by (rule eval_before_16)+
  have after: "first_match post (ustr ''spei  enviado'') (ustr ''spei enviado'') = Unmatched"
    unfolding post_def using eval_after_16 by simp

  \<comment> \<open>the row alone\<close>
  let ?a1 = "rules_loop pre [prepare x]"
  let ?a2 = "group_rule p (ustr ''SPEI Enviado'') ?a1"
  have a1: "length ?a1 = 1" "label (?a1 ! 0) = None" "descr_raw (?a1 ! 0) = ustr ''spei  enviado''"
    "descr_norm (?a1 ! 0) = ustr ''spei enviado''"
    using rules_loop_first_match(2) [of 0 "[prepare x]" pre] before(1)
    by (simp_all add: length_rules_loop rules_loop_keeps prep)
  have "set ?a1 = {?a1 ! 0}" using list1_nth [OF a1(1)] by (metis list.simps(15) empty_set)
  then have "\<forall>r' \<in> set ?a1. label r' = None \<longrightarrow> all_na (str_extract p (descr_raw r'))"
    by (simp add: a1 ex all_na_def)
  then have "label (?a2 ! 0) = Some (build_label (ustr ''SPEI Enviado'') (Some (ustr ''spei enviado'')))"
    using group_rule_nth [of 0 ?a1 p "ustr ''SPEI Enviado''"]
    by (simp add: a1 ex all_na_def Let_def)
  then have "label (rules_loop post ?a2 ! 0) = Some (ustr ''SPEI Enviado: spei enviado'')"
    using rules_loop_keeps(4) [of 0 ?a2 _ post]
    by (simp add: length_group_rule a1 eval_label_enviado)
  then have alone: "label (apply_rules_vectorized [x] ! 0) = Some (ustr ''SPEI Enviado: spei enviado'')"
    by (simp add: split length_rules_loop length_group_rule a1 fill_unknown_def)

  \<comment> \<open>the row with a second row whose raw text matches\<close>
  let ?b1 = "rules_loop pre [prepare x, prepare y]"
  let ?b2 = "group_rule p (ustr ''SPEI Enviado'') ?b1"
  have b1: "length ?b1 = 2" "label (?b1 ! 0) = None" "descr_raw (?b1 ! 0) = ustr ''spei  enviado''"
    "descr_norm (?b1 ! 0) = ustr ''spei enviado''"
    "label (?b1 ! 1) = None" "descr_raw (?b1 ! 1) = ustr ''spei enviado''"
    using rules_loop_first_match(2) [of 0 "[prepare x, prepare y]" pre]
      rules_loop_first_match(2) [of 1 "[prepare x, prepare y]" pre] before
    by (simp_all add: length_rules_loop rules_loop_keeps prep)
  have "?b1 ! 1 \<in> set ?b1" using b1(1) by simp
  then have "\<not> (\<forall>r' \<in> set ?b1. label r' = None \<longrightarrow> all_na (str_extract p (descr_raw r')))"
    using b1 ex by (auto simp: all_na_def)
  then have b2: "label (?b2 ! 0) = None" "descr_raw (?b2 ! 0) = ustr ''spei  enviado''"
    "descr_norm (?b2 ! 0) = ustr ''spei enviado''"
    using group_rule_nth [of 0 ?b1 p "ustr ''SPEI Enviado''"]
    by (simp_all add: b1 ex all_na_def Let_def)
  have "label (rules_loop post ?b2 ! 0) = None"
    using rules_loop_first_match(2) [of 0 ?b2 post] after
    by (simp add: length_group_rule b1 b2)
  then have pair: "label (apply_rules_vectorized [x, y] ! 0) = Some (ustr ''UNKNOWN'')"
    by (simp add: split length_rules_loop length_group_rule b1 fill_unknown_def)
  from alone pair show ?thesis by (simp add: x_def y_def)
qed

end
